theory Spec2Isabelle
  imports Complex_Main
begin

section \<open>The segmented colour palette of \<^verbatim>\<open>custom_color_palette.py\<close>\<close>

text \<open>
  The module has three functions: \<^verbatim>\<open>range\<close>, \<^verbatim>\<open>_colors_from_spec\<close> and
  \<^verbatim>\<open>creates_palette\<close>. The last two are embedded below as HOL functions, one
  definition per source function, with the loops and the blocks of
  \<^verbatim>\<open>creates_palette\<close> as named helpers.

  Numbers. Python's \<^verbatim>\<open>float\<close> and numpy's \<^verbatim>\<open>float64\<close> are modelled as \<^typ>\<open>real\<close>:
  arithmetic is exact, there is no rounding, no infinity and no NaN. Integers
  (\<^verbatim>\<open>len\<close>, loop counters, indices) are \<^typ>\<open>nat\<close> or \<^typ>\<open>int\<close>.
  \<^verbatim>\<open>range\<close> is left out: the number of values it returns is the floor of a float64
  quotient, \<^verbatim>\<open>int(np.floor((stop - start) / step)) + 1\<close>, and the rounding of that
  quotient decides the count (\<^verbatim>\<open>range(0.0, 1.0, 0.1)\<close> has 11 values because the
  rounded quotient is exactly 10, where the exact quotient of the same two floats lies
  just below 10). Exact reals cannot express this, so \<^verbatim>\<open>range\<close> has no embedding
  here; the palettes below take their arrays of values as given.

  Errors. Every exception the code can raise is a value \<open>Inl e\<close> of the result type
  \<open>error + 'a\<close>. \<open>EmptyPaletteError\<close> is the error the specification names; no
  function below ever returns it.
\<close>

subsection \<open>Errors and Python indexing\<close>

datatype error = ValueError | IndexError | EmptyPaletteError

text \<open>
  The position an index \<open>i\<close> denotes in a sequence of \<open>len\<close> items: an index from
  \<open>- len\<close> to \<open>-1\<close> counts back from the end, and an index outside \<open>- len .. len - 1\<close>
  denotes nothing.
\<close>

definition position :: "nat \<Rightarrow> int \<Rightarrow> nat option" where
  "position len i =
     (if 0 \<le> i \<and> i < int len then Some (nat i)
      else if - int len \<le> i \<and> i < 0 then Some (nat (int len + i))
      else None)"

text \<open>\<^verbatim>\<open>xs[i]\<close>, which raises \<^verbatim>\<open>IndexError\<close> out of range.\<close>

definition get_item :: "'a list \<Rightarrow> int \<Rightarrow> error + 'a" where
  "get_item xs i =
     (case position (length xs) i of None \<Rightarrow> Inl IndexError | Some k \<Rightarrow> Inr (xs ! k))"

text \<open>\<^verbatim>\<open>xs[i] = v\<close> on an array, returning the updated array.\<close>

definition set_item :: "'a list \<Rightarrow> int \<Rightarrow> 'a \<Rightarrow> error + 'a list" where
  "set_item xs i v =
     (case position (length xs) i of None \<Rightarrow> Inl IndexError | Some k \<Rightarrow> Inr (xs[k := v]))"

text \<open>
  A loop \<^verbatim>\<open>for i in is: res.append(f(i))\<close> (or the list comprehension
  \<^verbatim>\<open>[f(i) for i in is]\<close>) whose body may raise: the first error ends the loop.
\<close>

fun collect :: "('i \<Rightarrow> error + 'a) \<Rightarrow> 'i list \<Rightarrow> error + 'a list" where
  "collect f [] = Inr []"
| "collect f (i # is) =
     (case f i of
        Inl e \<Rightarrow> Inl e
      | Inr c \<Rightarrow> (case collect f is of Inl e \<Rightarrow> Inl e | Inr cs \<Rightarrow> Inr (c # cs)))"

subsection \<open>The numpy functions the module calls\<close>

text \<open>
  \<^verbatim>\<open>np.linspace(start, stop, num)\<close>: a negative \<open>num\<close> raises \<^verbatim>\<open>ValueError\<close>; one sample
  is \<open>[start]\<close>; otherwise sample \<open>i\<close> is \<open>start + i * ((stop - start) / (num - 1))\<close> and
  the last sample is then overwritten with \<open>stop\<close>.
\<close>

definition linspace :: "real \<Rightarrow> real \<Rightarrow> int \<Rightarrow> error + real list" where
  "linspace start stop num =
     (if num < 0 then Inl ValueError
      else if num \<le> 1 then Inr (map (\<lambda>i. start) [0..<nat num])
      else
        let dv = real_of_int (num - 1);
            step = (stop - start) / dv;
            y = map (\<lambda>i. real i * step + start) [0..<nat num]
        in Inr (y[nat num - 1 := stop]))"

text \<open>
  \<^verbatim>\<open>np.argsort(a)\<close>: the indices that sort \<open>a\<close>. numpy's default sort is not stable
  and leaves the order of equal values to the implementation; the model takes the
  stable order. The choice shows only in which of two colours comes first at a value
  that occurs twice, and nothing stated below depends on it.
\<close>

definition argsort :: "real list \<Rightarrow> nat list" where
  "argsort a = sort_key (\<lambda>i. a ! i) [0..<length a]"

text \<open>\<^verbatim>\<open>a.min()\<close> and \<^verbatim>\<open>a.max()\<close>: \<^verbatim>\<open>ValueError\<close> on an array of size zero.\<close>

definition array_min :: "real list \<Rightarrow> error + real" where
  "array_min a = (case a of [] \<Rightarrow> Inl ValueError | x # xs \<Rightarrow> Inr (fold min xs x))"

definition array_max :: "real list \<Rightarrow> error + real" where
  "array_max a = (case a of [] \<Rightarrow> Inl ValueError | x # xs \<Rightarrow> Inr (fold max xs x))"

text \<open>\<^verbatim>\<open>np.clip(a, lo, hi)\<close>, elementwise.\<close>

definition clip :: "real list \<Rightarrow> real \<Rightarrow> real \<Rightarrow> real list" where
  "clip a lo hi = map (\<lambda>v. min (max v lo) hi) a"

text \<open>\<^verbatim>\<open>np.unique(a)\<close>: the sorted array with repeated values dropped.\<close>

definition unique :: "real list \<Rightarrow> real list" where
  "unique a = remdups_adj (sort a)"

subsection \<open>\<^verbatim>\<open>_colors_from_spec\<close>\<close>

type_synonym rgba = "real \<times> real \<times> real \<times> real"

text \<open>
  A colour specification is a matplotlib \<^verbatim>\<open>Colormap\<close> (a function from a position to
  an RGBA colour) or a list of colours, each a name or a tuple. The conversion
  \<^verbatim>\<open>mcolors.to_rgba\<close> belongs to matplotlib; it is a parameter \<open>to_rgba\<close> of the model
  and may raise.
\<close>

datatype 'c color_spec = Colormap "real \<Rightarrow> rgba" | ColorList "'c list"

text \<open>\<^verbatim>\<open>(1 - frac) * c0 + frac * c1\<close> (the source's \<^verbatim>\<open>frac\<close> is \<open>fr\<close> here) on numpy arrays of four components.\<close>

fun blend :: "real \<Rightarrow> rgba \<Rightarrow> rgba \<Rightarrow> rgba" where
  "blend fr (r0, g0, b0, a0) (r1, g1, b1, a1) =
     ((1 - fr) * r0 + fr * r1, (1 - fr) * g0 + fr * g1,
      (1 - fr) * b0 + fr * b1, (1 - fr) * a0 + fr * a1)"

text \<open>The body of the interpolation loop, for the counter \<open>i\<close>.\<close>

definition interp_color :: "('c \<Rightarrow> error + rgba) \<Rightarrow> 'c list \<Rightarrow> nat \<Rightarrow> nat \<Rightarrow> error + rgba" where
  "interp_color to_rgba names n i =
     (let t = real i / real_of_int (max (int n - 1) 1);
          pos = t * real_of_int (int (length names) - 1);
          i0 = \<lfloor>pos\<rfloor>;
          i1 = min \<lceil>pos\<rceil> (int (length names) - 1);
          fr = pos - real_of_int i0
      in (case get_item names i0 of
            Inl e \<Rightarrow> Inl e
          | Inr name0 \<Rightarrow>
              (case to_rgba name0 of
                 Inl e \<Rightarrow> Inl e
               | Inr c0 \<Rightarrow>
                   (case get_item names i1 of
                      Inl e \<Rightarrow> Inl e
                    | Inr name1 \<Rightarrow>
                        (case to_rgba name1 of
                           Inl e \<Rightarrow> Inl e
                         | Inr c1 \<Rightarrow> Inr (blend fr c0 c1))))))"

definition colors_from_spec :: "('c \<Rightarrow> error + rgba) \<Rightarrow> 'c color_spec \<Rightarrow> nat \<Rightarrow> error + rgba list" where
  "colors_from_spec to_rgba color_spec n =
     (case color_spec of
        Colormap f \<Rightarrow>
          (case linspace 0 1 (int n) of Inl e \<Rightarrow> Inl e | Inr xs \<Rightarrow> Inr (map f xs))
      | ColorList names \<Rightarrow>
          if length names = 1 then
            (case get_item names 0 of
               Inl e \<Rightarrow> Inl e
             | Inr name0 \<Rightarrow>
                 (case to_rgba name0 of Inl e \<Rightarrow> Inl e | Inr c \<Rightarrow> Inr (replicate n c)))
          else collect (interp_color to_rgba names n) [0..<n])"

subsection \<open>\<^verbatim>\<open>creates_palette\<close>\<close>

text \<open>
  A \<^verbatim>\<open>paleta\<close> is a Python list \<^verbatim>\<open>[colors, valores, ...]\<close>. The model keeps its three
  shapes apart: the empty list, a list of one item, and a list whose first item is a
  colour specification and whose second is the array of values, followed by any
  number of further items.
\<close>

datatype ('c, 'x) paleta = Pal0 | Pal1 'x | Pal "'c color_spec" "real list" "'x list"

fun len_paleta :: "('c, 'x) paleta \<Rightarrow> nat" where
  "len_paleta Pal0 = 0"
| "len_paleta (Pal1 x) = 1"
| "len_paleta (Pal color_spec vals extra) = 2 + length extra"

text \<open>
  The loop over \<^verbatim>\<open>paletas\<close> (lines 84 to 97), with the accumulators
  \<^verbatim>\<open>all_vals\<close> and \<^verbatim>\<open>all_cols\<close> passed along. \<^verbatim>\<open>pal[1]\<close> of a list of fewer than two
  items would raise \<^verbatim>\<open>IndexError\<close>.
\<close>

fun accumulate ::
  "('c \<Rightarrow> error + rgba) \<Rightarrow> ('c, 'x) paleta list \<Rightarrow> real list \<times> rgba list \<Rightarrow>
   error + (real list \<times> rgba list)" where
  "accumulate to_rgba [] acc = Inr acc"
| "accumulate to_rgba (pal # paletas) (all_vals, all_cols) =
     (if len_paleta pal < 2 then accumulate to_rgba paletas (all_vals, all_cols)
      else
        (case pal of
           Pal color_spec vals extra \<Rightarrow>
             (case colors_from_spec to_rgba color_spec (length vals) of
                Inl e \<Rightarrow> Inl e
              | Inr cols_seg \<Rightarrow>
                  accumulate to_rgba paletas (all_vals @ vals, all_cols @ cols_seg))
         | _ \<Rightarrow> Inl IndexError))"

text \<open>Lines 99 to 104: both accumulators reordered by ascending value.\<close>

definition sort_by_value :: "real list \<Rightarrow> rgba list \<Rightarrow> error + (real list \<times> rgba list)" where
  "sort_by_value all_vals all_cols =
     (let order = argsort all_vals;
          sorted_vals = map (\<lambda>i. all_vals ! i) order
      in (case collect (\<lambda>i. get_item all_cols (int i)) order of
            Inl e \<Rightarrow> Inl e
          | Inr sorted_cols \<Rightarrow> Inr (sorted_vals, sorted_cols)))"

text \<open>Lines 106 to 118: the sorted values normalised to positions in \<open>[0, 1]\<close>.\<close>

definition normalize :: "real list \<Rightarrow> error + real list" where
  "normalize all_vals =
     (case array_min all_vals of
        Inl e \<Rightarrow> Inl e
      | Inr vmin \<Rightarrow>
          (case array_max all_vals of
             Inl e \<Rightarrow> Inl e
           | Inr vmax \<Rightarrow>
               let denom = (if vmax > vmin then vmax - vmin else 1);
                   vals_norm = map (\<lambda>v. (v - vmin) / denom) all_vals;
                   vals_norm = clip vals_norm 0 1
               in (case set_item vals_norm 0 0 of
                     Inl e \<Rightarrow> Inl e
                   | Inr vals_norm \<Rightarrow> set_item vals_norm (- 1) 1)))"

text \<open>
  matplotlib's objects. \<^verbatim>\<open>LinearSegmentedColormap.from_list(name, color_list)\<close> stores
  the control points with the default \<open>N = 256\<close> and checks nothing when it is built.
  \<^verbatim>\<open>BoundaryNorm(boundaries, ncolors, extend=...)\<close> raises \<^verbatim>\<open>ValueError\<close> when it is
  given fewer than two boundaries, and when the bins (one per interval, one more for
  each extended end) outnumber \<open>ncolors\<close>.
\<close>

datatype extend_mode = Neither | Both | Min | Max

record colormap =
  name :: string
  color_list :: "(real \<times> rgba) list"
  N :: nat

definition from_list :: "string \<Rightarrow> (real \<times> rgba) list \<Rightarrow> colormap" where
  "from_list nm colors = \<lparr>name = nm, color_list = colors, N = 256\<rparr>"

record boundary_norm =
  boundaries :: "real list"
  Ncmap :: nat
  extend_mode :: extend_mode
  n_regions :: nat
  offset :: nat

definition BoundaryNorm :: "real list \<Rightarrow> nat \<Rightarrow> extend_mode \<Rightarrow> error + boundary_norm" where
  "BoundaryNorm bs ncolors ext =
     (if length bs < 2 then Inl ValueError
      else
        let lo = (if ext = Min \<or> ext = Both then 1 else 0);
            hi = (if ext = Max \<or> ext = Both then 1 else 0);
            regions = length bs - 1 + lo + hi
        in if regions > ncolors then Inl ValueError
           else Inr \<lparr>boundaries = bs, Ncmap = ncolors, extend_mode = ext,
                     n_regions = regions, offset = lo\<rparr>)"

record palette =
  cmap :: colormap
  ticks :: "real list"
  bnorm :: boundary_norm
  bounds :: "real list"

text \<open>
  The control points handed to \<^verbatim>\<open>from_list\<close> (line 120), together with the sorted
  raw values that \<^verbatim>\<open>np.unique\<close> reads afterwards.
\<close>

definition control_points ::
  "('c \<Rightarrow> error + rgba) \<Rightarrow> ('c, 'x) paleta list \<Rightarrow> error + ((real \<times> rgba) list \<times> real list)" where
  "control_points to_rgba paletas =
     (case accumulate to_rgba paletas ([], []) of
        Inl e \<Rightarrow> Inl e
      | Inr (all_vals, all_cols) \<Rightarrow>
          (case sort_by_value all_vals all_cols of
             Inl e \<Rightarrow> Inl e
           | Inr (sorted_vals, sorted_cols) \<Rightarrow>
               (case normalize sorted_vals of
                  Inl e \<Rightarrow> Inl e
                | Inr vals_norm \<Rightarrow> Inr (zip vals_norm sorted_cols, sorted_vals))))"

definition creates_palette ::
  "('c \<Rightarrow> error + rgba) \<Rightarrow> ('c, 'x) paleta list \<Rightarrow> extend_mode \<Rightarrow> error + palette" where
  "creates_palette to_rgba paletas ext =
     (case control_points to_rgba paletas of
        Inl e \<Rightarrow> Inl e
      | Inr (colors, sorted_vals) \<Rightarrow>
          let cm = from_list ''custom_ccp'' colors;
              bs = unique sorted_vals;
              tk = bs
          in (case BoundaryNorm bs (N cm) ext of
                Inl e \<Rightarrow> Inl e
              | Inr nrm \<Rightarrow> Inr \<lparr>cmap = cm, ticks = tk, bnorm = nrm, bounds = bs\<rparr>))"

text \<open>
  A fragment of matplotlib's table of named colours, for evaluating the functions on
  concrete palettes; any other name is rejected with \<^verbatim>\<open>ValueError\<close>, as
  \<^verbatim>\<open>to_rgba\<close> does.
\<close>

definition named_rgba :: "string \<Rightarrow> error + rgba" where
  "named_rgba c =
     (if c = ''black'' then Inr (0, 0, 0, 1)
      else if c = ''white'' then Inr (1, 1, 1, 1)
      else if c = ''red'' then Inr (1, 0, 0, 1)
      else Inl ValueError)"

text \<open>
  The componentwise mean of two RGBA colours, for stating what the midpoint of a
  two-colour segment is.
\<close>

definition average :: "rgba \<Rightarrow> rgba \<Rightarrow> rgba" where
  "average c0 c1 =
     (case (c0, c1) of
        ((r0, g0, b0, a0), (r1, g1, b1, a1)) \<Rightarrow>
          ((r0 + r1) / 2, (g0 + g1) / 2, (b0 + b1) / 2, (a0 + a1) / 2))"

text \<open>
  Linear interpolation between two RGBA colours, written independently of the
  source's expression: at \<open>t\<close>, each of the four components moves from its value in
  the first colour by the fraction \<open>t\<close> of the difference to the second. This is the
  reference the code's blend is compared with.
\<close>

fun lerp_rgba :: "real \<Rightarrow> rgba \<Rightarrow> rgba \<Rightarrow> rgba" where
  "lerp_rgba t (r0, g0, b0, a0) (r1, g1, b1, a1) =
     (r0 + t * (r1 - r0), g0 + t * (g1 - g0), b0 + t * (b1 - b0), a0 + t * (a1 - a0))"

section \<open>Properties\<close>

subsection \<open>\<^verbatim>\<open>np.linspace\<close>\<close>

lemma linspace_Inr:
  assumes "0 \<le> num"
  shows "\<exists>xs. linspace a b num = Inr xs \<and> length xs = nat num \<and>
           (\<forall>i<nat num. xs ! i =
              (if num \<le> 1 then a else a + real i * ((b - a) / real_of_int (num - 1))))"
proof (cases "num \<le> 1")
  case True
  with assms show ?thesis by (simp add: linspace_def)
next
  case False
  define y where "y = map (\<lambda>i. real i * ((b - a) / real_of_int (num - 1)) + a) [0..<nat num]"
  have eq: "linspace a b num = Inr (y[nat num - 1 := b])"
    using False by (simp add: linspace_def y_def Let_def)
  have len: "length (y[nat num - 1 := b]) = nat num" by (simp add: y_def)
  have nth: "(y[nat num - 1 := b]) ! i = a + real i * ((b - a) / real_of_int (num - 1))"
    if "i < nat num" for i
  proof (cases "i = nat num - 1")
    case True
    have "real i = real_of_int (num - 1)" using True False by simp
    then have "a + real i * ((b - a) / real_of_int (num - 1)) = b"
      using False by simp
    with True that show ?thesis by (simp add: y_def)
  next
    case F: False
    with that show ?thesis by (simp add: y_def)
  qed
  from eq len nth False show ?thesis by auto
qed

subsection \<open>\<^verbatim>\<open>_colors_from_spec\<close>\<close>

lemma get_item_int: "0 \<le> i \<Longrightarrow> i < int (length xs) \<Longrightarrow> get_item xs i = Inr (xs ! nat i)"
  by (simp add: get_item_def position_def)

lemma collect_Inr:
  "(\<And>i. i \<in> set js \<Longrightarrow> f i = Inr (g i)) \<Longrightarrow> collect f js = Inr (map g js)"
  by (induction js) simp_all


text \<open>
  Claim C7. A colour list of length one over \<open>n\<close> values resolves to that colour,
  converted to RGBA, repeated \<open>n\<close> times.
\<close>

theorem single_color_repeated:
  assumes "to_rgba c = Inr col"
  shows "colors_from_spec to_rgba (ColorList [c]) n = Inr (replicate n col)"
  using assms by (simp add: colors_from_spec_def get_item_def position_def)

theorem single_color_repeated_witness:
  "named_rgba ''red'' = Inr (1, 0, 0, 1) \<and>
   colors_from_spec named_rgba (ColorList [''red'']) 3 = Inr [(1, 0, 0, 1), (1, 0, 0, 1), (1, 0, 0, 1)]"
proof -
  have h: "named_rgba ''red'' = Inr (1, 0, 0, 1)" by (simp add: named_rgba_def)
  from single_color_repeated [of named_rgba "''red''" "(1, 0, 0, 1)" 3] h show ?thesis
    by (simp add: numeral_3_eq_3)
qed



text \<open>
  The loop body on a list of at least two colours that all convert, for at least two
  values: both indices are in range and the result is the blend of the colours at the
  floor and (capped) ceiling of the position.
\<close>

lemma rgba_of_names:
  assumes rs: "map to_rgba names = map Inr rs" and "k < length names"
  shows "to_rgba (names ! k) = Inr (rs ! k)"
proof -
  have len: "length rs = length names" using rs by (metis length_map)
  have "map to_rgba names ! k = map Inr rs ! k" using rs by simp
  then show ?thesis using assms(2) len by simp
qed

lemma interp_color_Inr:
  assumes L: "2 \<le> length names" and n: "2 \<le> n" and i: "i < n"
    and rs: "map to_rgba names = map Inr rs"
  shows "interp_color to_rgba names n i =
     Inr (let pos = real i / real (n - 1) * real (length names - 1)
          in blend (pos - real_of_int \<lfloor>pos\<rfloor>) (rs ! nat \<lfloor>pos\<rfloor>)
               (rs ! nat (min \<lceil>pos\<rceil> (int (length names) - 1))))"
proof -
  define pos where "pos = real i / real (n - 1) * real (length names - 1)"
  define i0 where "i0 = \<lfloor>pos\<rfloor>"
  define i1 where "i1 = min \<lceil>pos\<rceil> (int (length names) - 1)"
  have m: "real_of_int (max (int n - 1) 1) = real (n - 1)"
  proof -
    have "max (int n - 1) 1 = int (n - 1)" using n by linarith
    then show ?thesis by simp
  qed
  have l: "real_of_int (int (length names) - 1) = real (length names - 1)"
  proof -
    have "int (length names) - 1 = int (length names - 1)" using L by linarith
    then have "real_of_int (int (length names) - 1) = real_of_int (int (length names - 1))"
      by (rule arg_cong)
    then show ?thesis by (simp only: of_int_of_nat_eq)
  qed
  have t1: "real i / real (n - 1) \<le> 1" using i n by simp
  have pos0: "0 \<le> pos" unfolding pos_def by simp
  have "pos \<le> 1 * real (length names - 1)"
    unfolding pos_def using t1 by (intro mult_right_mono) simp_all
  then have posL: "pos \<le> real (length names - 1)" by simp
  have f0: "0 \<le> \<lfloor>pos\<rfloor>" using pos0 by simp
  have "\<lfloor>pos\<rfloor> \<le> \<lfloor>real (length names - 1)\<rfloor>" using posL by (rule floor_mono)
  then have f1: "\<lfloor>pos\<rfloor> \<le> int (length names - 1)" by simp
  have c0: "0 \<le> \<lceil>pos\<rceil>" using pos0 by (metis ceiling_mono ceiling_zero)
  have i0r: "0 \<le> i0" "i0 < int (length names)" using f0 f1 L unfolding i0_def by linarith+
  have i1r: "0 \<le> i1" "i1 < int (length names)" using c0 L unfolding i1_def by linarith+
  have g0: "get_item names i0 = Inr (names ! nat i0)" using i0r by (rule get_item_int)
  have g1: "get_item names i1 = Inr (names ! nat i1)" using i1r by (rule get_item_int)
  have r0: "to_rgba (names ! nat i0) = Inr (rs ! nat i0)" using i0r by (intro rgba_of_names [OF rs]) simp
  have r1: "to_rgba (names ! nat i1) = Inr (rs ! nat i1)" using i1r by (intro rgba_of_names [OF rs]) simp
  have "interp_color to_rgba names n i =
      (case get_item names i0 of
         Inl e \<Rightarrow> Inl e
       | Inr name0 \<Rightarrow>
           (case to_rgba name0 of
              Inl e \<Rightarrow> Inl e
            | Inr c0 \<Rightarrow>
                (case get_item names i1 of
                   Inl e \<Rightarrow> Inl e
                 | Inr name1 \<Rightarrow>
                     (case to_rgba name1 of
                        Inl e \<Rightarrow> Inl e
                      | Inr c1 \<Rightarrow> Inr (blend (pos - real_of_int i0) c0 c1)))))"
    by (simp only: interp_color_def Let_def m l pos_def i0_def i1_def)
  also have "\<dots> = Inr (blend (pos - real_of_int i0) (rs ! nat i0) (rs ! nat i1))"
    by (simp only: g0 g1 r0 r1 sum.case)
  finally show ?thesis by (simp only: Let_def pos_def i0_def i1_def)
qed


text \<open>The code's blend is the linear interpolation of the reference definition.\<close>

lemma blend_lerp: "blend t c0 c1 = lerp_rgba t c0 c1"
  by (cases c0; cases c1) (simp add: algebra_simps)

lemma lerp_rgba_0: "lerp_rgba 0 c0 c1 = c0"
  by (cases c0; cases c1) simp

lemma lerp_rgba_1: "lerp_rgba 1 c0 c1 = c1"
  by (cases c0; cases c1) simp

lemma lerp_rgba_half: "lerp_rgba (1 / 2) c0 c1 = average c0 c1"
  by (cases c0; cases c1) (simp add: average_def field_simps)

lemma lerp_rgba_same: "lerp_rgba t c c = c"
  by (cases c) simp

text \<open>
  For a position between two neighbouring indices \<open>k\<close> and \<open>k + 1\<close> of the list, the
  floor and ceiling pair of the code selects the interpolation between the colours at
  \<open>k\<close> and \<open>k + 1\<close>, also when the position is one of the two indices.
\<close>

lemma knot_lerp:
  fixes pos :: real and rs :: "rgba list"
  assumes k: "Suc k < L" and lo: "real k \<le> pos" and hi: "pos \<le> real (Suc k)"
  shows "lerp_rgba (pos - real_of_int \<lfloor>pos\<rfloor>) (rs ! nat \<lfloor>pos\<rfloor>)
           (rs ! nat (min \<lceil>pos\<rceil> (int L - 1))) =
         lerp_rgba (pos - real k) (rs ! k) (rs ! Suc k)"
proof -
  consider "pos = real k" | "pos = real (Suc k)" | "real k < pos" "pos < real (Suc k)"
    using lo hi by linarith
  then show ?thesis
  proof cases
    case 1
    have f: "\<lfloor>pos\<rfloor> = int k" unfolding 1 by simp
    have c: "\<lceil>pos\<rceil> = int k" unfolding 1 by simp
    have m: "min (int k) (int L - 1) = int k" using k by linarith
    show ?thesis unfolding f c m using 1 by (simp add: lerp_rgba_0)
  next
    case 2
    have f: "\<lfloor>pos\<rfloor> = int (Suc k)" unfolding 2 by (rule floor_of_nat)
    have c: "\<lceil>pos\<rceil> = int (Suc k)" unfolding 2 by (rule ceiling_of_nat)
    have m: "min (int (Suc k)) (int L - 1) = int (Suc k)" using k by linarith
    have d: "pos - real k = 1" unfolding 2 by simp
    have e: "pos - real_of_int (int (Suc k)) = 0" unfolding 2 by simp
    show ?thesis unfolding f c m d e by (simp only: nat_int lerp_rgba_0 lerp_rgba_1)
  next
    case 3
    have f: "\<lfloor>pos\<rfloor> = int k" using 3 by (simp add: floor_eq_iff)
    have c: "\<lceil>pos\<rceil> = int (Suc k)" using 3 by (simp add: ceiling_eq_iff)
    have m: "min (int (Suc k)) (int L - 1) = int (Suc k)" using k by linarith
    show ?thesis unfolding f c m by (simp only: nat_int of_int_of_nat_eq)
  qed
qed


text \<open>
  Claim C8. A colour list of length at least two over \<open>n \<ge> 2\<close> values resolves to \<open>n\<close>
  colours. Colour \<open>i\<close> is the linear interpolation, at the fractional part of the
  position \<open>i / (n - 1) * (len - 1)\<close>, between the list's colours at the floor and at
  the ceiling (capped at the last index) of that position; that is, whenever the
  position lies between two neighbouring indices \<open>k\<close> and \<open>k + 1\<close>, colour \<open>i\<close> is the
  linear interpolation between the colours at \<open>k\<close> and \<open>k + 1\<close> at the offset from \<open>k\<close>.
  The first resolved colour is the first of the list and the last is the last of the
  list. For a list of two colours over an odd number of values, the middle colour is
  the componentwise mean of the two.
\<close>

theorem discrete_list_interpolation:
  assumes L: "2 \<le> length names" and n: "2 \<le> n"
    and rs: "map to_rgba names = map Inr rs"
  shows "\<exists>cs. colors_from_spec to_rgba (ColorList names) n = Inr cs \<and> length cs = n \<and>
           (\<forall>i<n. cs ! i =
              (let pos = real i / real (n - 1) * real (length names - 1)
               in lerp_rgba (pos - real_of_int \<lfloor>pos\<rfloor>) (rs ! nat \<lfloor>pos\<rfloor>)
                    (rs ! nat (min \<lceil>pos\<rceil> (int (length names) - 1))))) \<and>
           (\<forall>i<n. \<forall>k. Suc k < length names \<and>
                real k \<le> real i / real (n - 1) * real (length names - 1) \<and>
                real i / real (n - 1) * real (length names - 1) \<le> real (Suc k) \<longrightarrow>
              cs ! i =
                lerp_rgba (real i / real (n - 1) * real (length names - 1) - real k)
                  (rs ! k) (rs ! Suc k)) \<and>
           cs ! 0 = rs ! 0 \<and> cs ! (n - 1) = rs ! (length names - 1) \<and>
           (length names = 2 \<and> odd n \<longrightarrow> cs ! ((n - 1) div 2) = average (rs ! 0) (rs ! 1))"
proof -
  define pos where "pos = (\<lambda>i. real i / real (n - 1) * real (length names - 1))"
  define g where "g = (\<lambda>i. lerp_rgba (pos i - real_of_int \<lfloor>pos i\<rfloor>) (rs ! nat \<lfloor>pos i\<rfloor>)
          (rs ! nat (min \<lceil>pos i\<rceil> (int (length names) - 1))))"
  have "interp_color to_rgba names n i = Inr (g i)" if "i \<in> set [0..<n]" for i
    using interp_color_Inr [OF L n _ rs, of i] that
    by (simp add: g_def pos_def Let_def blend_lerp)
  then have c: "collect (interp_color to_rgba names n) [0..<n] = Inr (map g [0..<n])"
    by (rule collect_Inr)
  have "length names \<noteq> 1" using L by simp
  then have eq: "colors_from_spec to_rgba (ColorList names) n = Inr (map g [0..<n])"
    using c by (simp add: colors_from_spec_def)
  have len: "length (map g [0..<n]) = n" by simp
  have nth: "map g [0..<n] ! i = g i" if "i < n" for i using that by simp
  have fc: "\<forall>i<n. map g [0..<n] ! i =
      (let pos = real i / real (n - 1) * real (length names - 1)
       in lerp_rgba (pos - real_of_int \<lfloor>pos\<rfloor>) (rs ! nat \<lfloor>pos\<rfloor>)
            (rs ! nat (min \<lceil>pos\<rceil> (int (length names) - 1))))"
    using nth by (simp add: g_def pos_def Let_def)
  have knot: "map g [0..<n] ! i = lerp_rgba (pos i - real k) (rs ! k) (rs ! Suc k)"
    if "i < n" "Suc k < length names" "real k \<le> pos i" "pos i \<le> real (Suc k)" for i k
  proof -
    have "g i = lerp_rgba (pos i - real k) (rs ! k) (rs ! Suc k)"
      unfolding g_def using that(2,3,4) by (rule knot_lerp)
    with nth [OF that(1)] show ?thesis by simp
  qed
  have p0: "pos 0 = 0" by (simp add: pos_def)
  have first: "map g [0..<n] ! 0 = rs ! 0"
  proof -
    have "g 0 = rs ! 0" unfolding g_def p0 by (simp add: lerp_rgba_0)
    moreover have "0 < n" using n by simp
    ultimately show ?thesis using nth [of 0] by simp
  qed
  have pl: "pos (n - 1) = real (length names - 1)" using n by (simp add: pos_def)
  have lst: "map g [0..<n] ! (n - 1) = rs ! (length names - 1)"
  proof -
    have f: "\<lfloor>real (length names - 1)\<rfloor> = int (length names - 1)" by (rule floor_of_nat)
    have "g (n - 1) = rs ! (length names - 1)"
      unfolding g_def pl f by (simp add: lerp_rgba_0)
    moreover have "n - 1 < n" using n by simp
    ultimately show ?thesis using nth [of "n - 1"] by simp
  qed
  have mid: "map g [0..<n] ! ((n - 1) div 2) = average (rs ! 0) (rs ! 1)"
    if two: "length names = 2" and odd: "odd n"
  proof -
    from odd obtain k where k: "n = 2 * k + 1" by (auto elim: oddE)
    with n have k0: "0 < k" by simp
    have idx: "(n - 1) div 2 = k" using k by simp
    have half: "real k / real (n - 1) = 1 / 2" using k k0 by simp
    have one: "real (length names - 1) = 1" using two by simp
    have p: "pos k = 1 / 2" unfolding pos_def by (simp only: half one mult_1_right)
    have kn: "k < n" using k by simp
    have "map g [0..<n] ! k = lerp_rgba (pos k - real 0) (rs ! 0) (rs ! Suc 0)"
      using kn two p by (intro knot) simp_all
    then show ?thesis unfolding idx p by (simp add: lerp_rgba_half)
  qed
  from eq len fc knot first lst mid show ?thesis
    unfolding pos_def by (intro exI [of _ "map g [0..<n]"] conjI) blast+
qed


theorem discrete_list_interpolation_witness:
  "2 \<le> length [''black'', ''white''] \<and> (2::nat) \<le> 3 \<and>
   map named_rgba [''black'', ''white''] = map Inr [(0, 0, 0, 1), (1, 1, 1, 1)] \<and>
   (\<exists>cs. colors_from_spec named_rgba (ColorList [''black'', ''white'']) 3 = Inr cs \<and>
      length cs = 3 \<and> cs ! 0 = (0, 0, 0, 1) \<and> cs ! 1 = (1 / 2, 1 / 2, 1 / 2, 1) \<and>
      cs ! 2 = (1, 1, 1, 1))"
proof -
  have h1: "2 \<le> length [''black'', ''white'']" and h2: "(2::nat) \<le> 3" by simp_all
  have h3: "map named_rgba [''black'', ''white''] = map Inr [(0, 0, 0, 1), (1, 1, 1, 1)]"
    by (simp add: named_rgba_def)
  from discrete_list_interpolation [OF h1 h2 h3] obtain cs where
    cs: "colors_from_spec named_rgba (ColorList [''black'', ''white'']) 3 = Inr cs"
      "length cs = 3"
      "cs ! 0 = [(0, 0, 0, 1), (1, 1, 1, 1)] ! 0"
      "cs ! (3 - 1) = [(0, 0, 0, 1), (1, 1, 1, 1)] ! (length [''black'', ''white''] - 1)"
      "length [''black'', ''white''] = 2 \<and> odd (3::nat) \<longrightarrow>
         cs ! ((3 - 1) div 2) = average ([(0, 0, 0, 1), (1, 1, 1, 1)] ! 0) ([(0, 0, 0, 1), (1, 1, 1, 1)] ! 1)"
    by blast
  from cs(3) have c0: "cs ! 0 = (0, 0, 0, 1)" by simp
  from cs(4) have c2: "cs ! 2 = (1, 1, 1, 1)" by simp
  from cs(5) have c1: "cs ! 1 = (1 / 2, 1 / 2, 1 / 2, 1)" by (simp add: average_def)
  from cs(1,2) c0 c1 c2 h1 h2 h3 show ?thesis by blast
qed

subsection \<open>The accumulation loop\<close>

lemma collect_length: "collect f js = Inr cs \<Longrightarrow> length cs = length js"
  by (induction js arbitrary: cs) (auto split: sum.splits)

lemma colors_from_spec_length:
  assumes "colors_from_spec to_rgba color_spec n = Inr cs"
  shows "length cs = n"
proof (cases color_spec)
  case (Colormap f)
  from linspace_Inr [of "int n" 0 1] obtain xs where
    xs: "linspace 0 1 (int n) = Inr xs" "length xs = n" by auto
  with assms Colormap show ?thesis by (auto simp: colors_from_spec_def)
next
  case (ColorList names)
  show ?thesis
  proof (cases "length names = 1")
    case True
    with assms ColorList show ?thesis
      by (auto simp: colors_from_spec_def split: sum.splits)
  next
    case False
    with assms ColorList have "collect (interp_color to_rgba names n) [0..<n] = Inr cs"
      by (simp add: colors_from_spec_def)
    from collect_length [OF this] show ?thesis by simp
  qed
qed

lemma accumulate_length:
  "accumulate to_rgba paletas (vs, cs) = Inr (vs', cs') \<Longrightarrow> length vs = length cs \<Longrightarrow>
   length vs' = length cs'"
proof (induction paletas arbitrary: vs cs)
  case Nil
  then show ?case by simp
next
  case (Cons pal paletas)
  show ?case
  proof (cases "len_paleta pal < 2")
    case True
    with Cons show ?thesis by simp
  next
    case False
    then obtain color_spec vals extra where pal: "pal = Pal color_spec vals extra"
      by (cases pal) simp_all
    with Cons.prems(1) obtain cols_seg where
      c: "colors_from_spec to_rgba color_spec (length vals) = Inr cols_seg"
      and a: "accumulate to_rgba paletas (vs @ vals, cs @ cols_seg) = Inr (vs', cs')"
      by (auto split: sum.splits)
    from colors_from_spec_length [OF c] Cons.prems(2)
    have "length (vs @ vals) = length (cs @ cols_seg)" by simp
    from Cons.IH [OF a this] show ?thesis .
  qed
qed

text \<open>Dropping the lists of fewer than two items beforehand changes nothing.\<close>

lemma accumulate_filter:
  "accumulate to_rgba (filter (\<lambda>p. 2 \<le> len_paleta p) paletas) acc = accumulate to_rgba paletas acc"
proof (induction paletas arbitrary: acc)
  case Nil
  show ?case by simp
next
  case (Cons pal paletas)
  obtain vs cs where acc: "acc = (vs, cs)" by (cases acc)
  show ?case
  proof (cases "len_paleta pal < 2")
    case True
    then have "\<not> 2 \<le> len_paleta pal" by simp
    with True Cons acc show ?thesis by simp
  next
    case False
    then have "2 \<le> len_paleta pal" by simp
    with False Cons acc show ?thesis by (simp split: sum.splits paleta.splits)
  qed
qed

lemma accumulate_malformed:
  "\<forall>p\<in>set paletas. len_paleta p < 2 \<Longrightarrow> accumulate to_rgba paletas acc = Inr acc"
  by (induction paletas) (cases acc, simp)+

subsection \<open>Normalisation and sorting\<close>

lemma position_first: "0 < n \<Longrightarrow> position n 0 = Some 0"
  by (simp add: position_def)

lemma position_last: "0 < n \<Longrightarrow> position n (- 1) = Some (n - 1)"
  by (auto simp: position_def)

lemma array_min_Inr: "xs \<noteq> [] \<Longrightarrow> \<exists>m. array_min xs = Inr m"
  by (cases xs) (simp_all add: array_min_def)

lemma array_max_Inr: "xs \<noteq> [] \<Longrightarrow> \<exists>m. array_max xs = Inr m"
  by (cases xs) (simp_all add: array_max_def)

lemma normalize_empty: "normalize [] = Inl ValueError"
  by (simp add: normalize_def array_min_def)

lemma normalize_Inr:
  assumes "xs \<noteq> []"
  shows "\<exists>vmin denom. 0 < denom \<and>
           normalize xs =
             Inr ((clip (map (\<lambda>v. (v - vmin) / denom) xs) 0 1)[0 := 0, length xs - 1 := 1])"
proof -
  from array_min_Inr [OF assms] obtain vmin where mn: "array_min xs = Inr vmin" ..
  from array_max_Inr [OF assms] obtain vmax where mx: "array_max xs = Inr vmax" ..
  define denom where "denom = (if vmax > vmin then vmax - vmin else 1)"
  define vn where "vn = clip (map (\<lambda>v. (v - vmin) / denom) xs) 0 1"
  have len: "length vn = length xs" by (simp add: vn_def clip_def)
  have pos: "0 < denom" by (simp add: denom_def)
  have n0: "0 < length xs" using assms by simp
  have s0: "set_item vn 0 0 = Inr (vn[0 := 0])"
    using n0 by (simp add: set_item_def len position_first)
  have s1: "set_item (vn[0 := 0]) (- 1) 1 = Inr (vn[0 := 0, length xs - 1 := 1])"
    using n0 by (simp add: set_item_def len position_last)
  have "normalize xs = Inr (vn[0 := 0, length xs - 1 := 1])"
    unfolding normalize_def mn mx
    by (simp only: sum.case Let_def denom_def [symmetric] vn_def [symmetric] s0 s1)
  with pos show ?thesis unfolding vn_def by blast
qed

lemma clip_bounds: "v \<in> set (clip a 0 1) \<Longrightarrow> 0 \<le> v \<and> v \<le> 1"
  by (auto simp: clip_def)

lemma clip_normalized_sorted:
  assumes "sorted xs" and "0 < denom"
  shows "sorted (clip (map (\<lambda>v. (v - vmin) / denom) xs) 0 1)"
proof -
  have mono: "min (max ((x - vmin) / denom) 0) 1 \<le> min (max ((y - vmin) / denom) 0) 1"
    if "x \<le> y" for x y :: real
  proof -
    from that assms(2) have "(x - vmin) / denom \<le> (y - vmin) / denom"
      by (simp add: divide_right_mono)
    then show ?thesis by (auto simp: min_def max_def)
  qed
  have "sorted_wrt (\<lambda>x y. min (max ((x - vmin) / denom) 0) 1 \<le> min (max ((y - vmin) / denom) 0) 1) xs"
    using assms(1) mono by (auto intro: sorted_wrt_mono_rel [of xs "(\<le>)"])
  then show ?thesis by (simp add: clip_def sorted_map o_def)
qed

lemma pinned_nth:
  assumes "k < length vn"
  shows "vn[0 := 0, length vn - 1 := (1::real)] ! k =
           (if k = length vn - 1 then 1 else if k = 0 then 0 else vn ! k)"
proof -
  have n0: "0 < length vn" using assms by auto
  have A: "vn[0 := 0, length vn - 1 := 1] ! k =
      (if length vn - 1 = k then 1 else vn[0 := 0] ! k)"
  proof (rule nth_list_update)
    show "length vn - 1 < length (vn[0 := 0])" using n0 by (simp only: length_list_update)
  qed
  have B: "vn[0 := 0] ! k = (if 0 = k then 0 else vn ! k)"
    by (rule nth_list_update) (rule n0)
  show ?thesis unfolding A B by auto
qed

lemma pinned_sorted:
  assumes s: "sorted vn" and b: "\<forall>v\<in>set vn. 0 \<le> v \<and> v \<le> (1::real)"
  shows "sorted (vn[0 := 0, length vn - 1 := 1])"
proof -
  define ys where "ys = vn[0 := 0, length vn - 1 := 1]"
  have len: "length ys = length vn" by (simp add: ys_def)
  have nth: "ys ! k = (if k = length vn - 1 then 1 else if k = 0 then 0 else vn ! k)"
    if "k < length vn" for k
    unfolding ys_def using that by (rule pinned_nth)
  have rng: "0 \<le> vn ! k \<and> vn ! k \<le> 1" if "k < length vn" for k
    using b that by simp
  have "ys ! i \<le> ys ! j" if "i \<le> j" and "j < length ys" for i j
  proof -
    from that len have i: "i < length vn" and j: "j < length vn" by simp_all
    from s that(1) j have "vn ! i \<le> vn ! j" by (simp add: sorted_iff_nth_mono)
    with nth [OF i] nth [OF j] rng [OF i] rng [OF j] that(1) i j show ?thesis
      by (auto split: if_splits)
  qed
  then have "sorted ys" by (simp add: sorted_iff_nth_mono)
  then show ?thesis by (simp add: ys_def)
qed

lemma normalize_pinned:
  assumes "xs \<noteq> []"
  shows "\<exists>ys. normalize xs = Inr ys \<and> length ys = length xs \<and> ys ! (length xs - 1) = 1 \<and>
           (2 \<le> length xs \<longrightarrow> ys ! 0 = 0) \<and> (sorted xs \<longrightarrow> sorted ys)"
proof -
  from normalize_Inr [OF assms] obtain vmin denom where d: "0 < denom"
    and n: "normalize xs =
      Inr ((clip (map (\<lambda>v. (v - vmin) / denom) xs) 0 1)[0 := 0, length xs - 1 := 1])"
    by blast
  define vn where "vn = clip (map (\<lambda>v. (v - vmin) / denom) xs) 0 1"
  have len: "length vn = length xs" by (simp add: vn_def clip_def)
  have n0: "0 < length vn" using assms len by simp
  have eq: "normalize xs = Inr (vn[0 := 0, length vn - 1 := 1])"
    using n by (simp only: vn_def [symmetric] len)
  have l: "vn[0 := 0, length vn - 1 := 1] ! (length vn - 1) = 1"
    using n0 pinned_nth [of "length vn - 1" vn] by simp
  have f: "vn[0 := 0, length vn - 1 := 1] ! 0 = 0" if "2 \<le> length vn"
  proof -
    from that have "0 \<noteq> length vn - 1" by linarith
    with pinned_nth [OF n0] show ?thesis by (simp only: if_False if_True refl)
  qed
  have s: "sorted (vn[0 := 0, length vn - 1 := 1])" if "sorted xs"
  proof -
    have "sorted vn" unfolding vn_def using that d by (rule clip_normalized_sorted)
    moreover have "\<forall>v\<in>set vn. 0 \<le> v \<and> v \<le> 1" unfolding vn_def using clip_bounds by blast
    ultimately show ?thesis by (rule pinned_sorted)
  qed
  from eq l f s len show ?thesis by auto
qed

lemma argsort_set: "set (argsort a) = {0..<length a}"
  by (simp add: argsort_def)

lemma argsort_length: "length (argsort a) = length a"
  by (simp add: argsort_def)


lemma argsort_values_set: "set (map (\<lambda>i. a ! i) (argsort a)) = set a"
proof -
  have "set (map (\<lambda>i. a ! i) (argsort a)) = (\<lambda>i. a ! i) ` {0..<length a}"
    by (simp add: argsort_set)
  also have "\<dots> = set (map (\<lambda>i. a ! i) [0..<length a])" by simp
  also have "\<dots> = set a" by (simp only: map_nth)
  finally show ?thesis .
qed

lemma sort_by_value_Inr:
  assumes "length all_vals = length all_cols"
  shows "\<exists>sorted_cols. sort_by_value all_vals all_cols =
            Inr (map (\<lambda>i. all_vals ! i) (argsort all_vals), sorted_cols) \<and>
          length sorted_cols = length all_vals"
proof -
  have "get_item all_cols (int i) = Inr (all_cols ! i)" if "i \<in> set (argsort all_vals)" for i
    using that assms get_item_int [of "int i" all_cols] by (simp add: argsort_set)
  then have "collect (\<lambda>i. get_item all_cols (int i)) (argsort all_vals) =
      Inr (map (\<lambda>i. all_cols ! i) (argsort all_vals))"
    by (rule collect_Inr)
  then show ?thesis by (simp add: sort_by_value_def Let_def argsort_length)
qed

subsection \<open>\<^verbatim>\<open>creates_palette\<close>\<close>

lemma control_points_Inr:
  assumes a: "accumulate to_rgba paletas ([], []) = Inr (all_vals, all_cols)"
    and ne: "all_vals \<noteq> []"
  shows "\<exists>vals_norm sorted_cols.
           control_points to_rgba paletas =
             Inr (zip vals_norm sorted_cols, map (\<lambda>i. all_vals ! i) (argsort all_vals)) \<and>
           normalize (map (\<lambda>i. all_vals ! i) (argsort all_vals)) = Inr vals_norm \<and>
           length vals_norm = length all_vals \<and> length sorted_cols = length all_vals"
proof -
  define sv where "sv = map (\<lambda>i. all_vals ! i) (argsort all_vals)"
  have "length all_vals = length all_cols" using accumulate_length [OF a] by simp
  from sort_by_value_Inr [OF this] obtain sc where
    s: "sort_by_value all_vals all_cols = Inr (sv, sc)" and lsc: "length sc = length all_vals"
    unfolding sv_def by blast
  have lsv: "length sv = length all_vals" by (simp add: sv_def argsort_length)
  with ne have "sv \<noteq> []" by auto
  from normalize_pinned [OF this] obtain vn where
    n: "normalize sv = Inr vn" and lvn: "length vn = length sv" by blast
  have "control_points to_rgba paletas = Inr (zip vn sc, sv)"
    by (simp add: control_points_def a s n)
  with n lvn lsv lsc show ?thesis unfolding sv_def by auto
qed

text \<open>
  Claim C1 (as amended). When every \<^verbatim>\<open>paleta\<close> has fewer than two items, both
  accumulators stay empty and the call ends in the \<^verbatim>\<open>ValueError\<close> that \<^verbatim>\<open>min\<close> raises
  on an array of size zero.
\<close>

theorem all_malformed_value_error:
  assumes "\<forall>p\<in>set paletas. len_paleta p < 2"
  shows "creates_palette to_rgba paletas ext = Inl ValueError"
proof -
  have a: "accumulate to_rgba paletas ([], []) = Inr ([], [])"
    using assms by (rule accumulate_malformed)
  have s: "sort_by_value [] [] = Inr ([], [])"
    by (simp add: sort_by_value_def argsort_def)
  have "control_points to_rgba paletas = Inl ValueError"
    by (simp add: control_points_def a s normalize_empty)
  then show ?thesis by (simp add: creates_palette_def)
qed

theorem all_malformed_value_error_witness:
  "len_paleta (Pal0 :: (string, unit) paleta) < 2 \<and>
   len_paleta (Pal1 () :: (string, unit) paleta) < 2 \<and>
   creates_palette named_rgba [Pal0, Pal1 ()] Both = Inl ValueError"
proof -
  have h: "\<forall>p\<in>set [Pal0, Pal1 ()]. len_paleta (p :: (string, unit) paleta) < 2" by simp
  from all_malformed_value_error [OF h] show ?thesis by simp
qed

text \<open>
  The claim as first stated asks for \<open>EmptyPaletteError\<close>; on two malformed lists the
  call ends in another error.
\<close>

theorem all_malformed_counterexample:
  "creates_palette named_rgba [Pal0, Pal1 ()] Both \<noteq> Inl EmptyPaletteError"
proof -
  have "creates_palette named_rgba [Pal0, Pal1 ()] Both = Inl ValueError" by code_simp
  then show ?thesis by simp
qed

text \<open>
  Claim C6. A \<^verbatim>\<open>paleta\<close> of fewer than two items is skipped and nothing is raised for
  it: the accumulators, the control points and the whole result are those of the list
  with the malformed items removed.
\<close>

theorem malformed_segments_skipped:
  "accumulate to_rgba paletas acc =
     accumulate to_rgba (filter (\<lambda>p. 2 \<le> len_paleta p) paletas) acc \<and>
   control_points to_rgba paletas =
     control_points to_rgba (filter (\<lambda>p. 2 \<le> len_paleta p) paletas) \<and>
   creates_palette to_rgba paletas ext =
     creates_palette to_rgba (filter (\<lambda>p. 2 \<le> len_paleta p) paletas) ext"
  by (simp add: creates_palette_def control_points_def accumulate_filter)






text \<open>
  Claim C10. With exactly one accumulated pair, the assignment to the last position
  overwrites the assignment to the first: the single control point is at \<open>1\<close>.
\<close>

theorem single_stop_position_one:
  assumes "accumulate to_rgba paletas ([], []) = Inr ([v], all_cols)"
  shows "\<exists>c. control_points to_rgba paletas = Inr ([(1, c)], [v])"
proof -
  have ne: "[v] \<noteq> []" by simp
  from control_points_Inr [OF assms ne] obtain vn sc where
    cp: "control_points to_rgba paletas = Inr (zip vn sc, map (\<lambda>i. [v] ! i) (argsort [v]))"
    and n: "normalize (map (\<lambda>i. [v] ! i) (argsort [v])) = Inr vn"
    and lsc: "length sc = length [v]"
    by blast
  have sv: "map (\<lambda>i. [v] ! i) (argsort [v]) = [v]" by (simp add: argsort_def)
  from normalize_pinned [of "[v]"] n have "length vn = 1" "vn ! 0 = 1"
    unfolding sv by auto
  then have vn: "vn = [1]" by (cases vn) auto
  from lsc obtain c where sc: "sc = [c]" by (cases sc) auto
  from cp have "control_points to_rgba paletas = Inr ([(1, c)], [v])"
    unfolding sv vn sc by simp
  then show ?thesis ..
qed

theorem single_stop_position_one_witness:
  "accumulate named_rgba [Pal (ColorList [''red'']) [5] ([]::unit list)] ([], []) =
     Inr ([5], [(1, 0, 0, 1)]) \<and>
   (\<exists>c. control_points named_rgba [Pal (ColorList [''red'']) [5] ([]::unit list)] =
      Inr ([(1, c)], [5]))"
proof -
  have h: "accumulate named_rgba [Pal (ColorList [''red'']) [5] ([]::unit list)] ([], []) =
     Inr ([5], [(1, 0, 0, 1)])"
    by code_simp
  from single_stop_position_one [OF h] h show ?thesis by blast
qed

lemma distinct_remdups_adj_sorted: "sorted xs \<Longrightarrow> distinct (remdups_adj xs)"
  for xs :: "real list"
  by (induction xs rule: remdups_adj.induct) auto

lemma unique_sorted_list_of_set: "unique a = sorted_list_of_set (set a)"
proof -
  have "sorted (unique a)" by (simp add: unique_def sorted_remdups_adj)
  moreover have "distinct (unique a)" by (simp add: unique_def distinct_remdups_adj_sorted)
  moreover have "set (unique a) = set a" by (simp add: unique_def)
  ultimately show ?thesis
    by (metis sorted_list_of_set.idem_if_sorted_distinct)
qed

text \<open>
  Claim C4. Whenever \<^verbatim>\<open>creates_palette\<close> returns, \<^verbatim>\<open>bounds\<close> is ascending without
  repetition, it is the sorted list of the distinct accumulated raw values, and
  \<^verbatim>\<open>ticks\<close> equals it.
\<close>

theorem boundaries_sorted_unique:
  assumes r: "creates_palette to_rgba paletas ext = Inr r"
    and a: "accumulate to_rgba paletas ([], []) = Inr (all_vals, all_cols)"
  shows "sorted (bounds r) \<and> distinct (bounds r) \<and>
         bounds r = sorted_list_of_set (set all_vals) \<and> ticks r = bounds r"
proof -
  from r obtain colors sv where cp: "control_points to_rgba paletas = Inr (colors, sv)"
    by (auto simp: creates_palette_def split: sum.splits)
  from cp a have sv: "sv = map (\<lambda>i. all_vals ! i) (argsort all_vals)"
    by (auto simp: control_points_def sort_by_value_def Let_def split: sum.splits)
  from r cp have b: "bounds r = unique sv" and t: "ticks r = unique sv"
    by (auto simp: creates_palette_def Let_def split: sum.splits)
  have "set sv = set all_vals" unfolding sv by (rule argsort_values_set)
  then have "unique sv = sorted_list_of_set (set all_vals)"
    by (simp add: unique_sorted_list_of_set)
  with b t show ?thesis by simp
qed

theorem boundaries_sorted_unique_witness:
  "creates_palette named_rgba
     [Pal (ColorList [''white'', ''black'']) [5, 10] ([]::unit list),
      Pal (ColorList [''red'', ''white'']) [0, 5] []] Both =
     Inr \<lparr>cmap = \<lparr>name = ''custom_ccp'',
                    color_list = [(0, (1, 0, 0, 1)), (1 / 2, (1, 1, 1, 1)),
                                  (1 / 2, (1, 1, 1, 1)), (1, (0, 0, 0, 1))],
                    N = 256\<rparr>,
           ticks = [0, 5, 10],
           bnorm = \<lparr>boundaries = [0, 5, 10], Ncmap = 256, extend_mode = Both,
                     n_regions = 4, offset = 1\<rparr>,
           bounds = [0, 5, 10]\<rparr> \<and>
   accumulate named_rgba
     [Pal (ColorList [''white'', ''black'']) [5, 10] ([]::unit list),
      Pal (ColorList [''red'', ''white'']) [0, 5] []] ([], []) =
     Inr ([5, 10, 0, 5], [(1, 1, 1, 1), (0, 0, 0, 1), (1, 0, 0, 1), (1, 1, 1, 1)]) \<and>
   sorted [0, 5, 10 :: real] \<and> distinct [0, 5, 10 :: real] \<and>
   [0, 5, 10] = sorted_list_of_set (set [5, 10, 0, 5 :: real])"
proof -
  let ?ps = "[Pal (ColorList [''white'', ''black'']) [5, 10] ([]::unit list),
              Pal (ColorList [''red'', ''white'']) [0, 5] []]"
  let ?r = "\<lparr>cmap = \<lparr>name = ''custom_ccp'',
                    color_list = [(0, (1, 0, 0, 1)), (1 / 2, (1, 1, 1, 1)),
                                  (1 / 2, (1, 1, 1, 1)), (1, (0, 0, 0, 1))],
                    N = 256\<rparr>,
           ticks = [0, 5, 10],
           bnorm = \<lparr>boundaries = [0, 5, 10], Ncmap = 256, extend_mode = Both,
                     n_regions = 4, offset = 1\<rparr>,
           bounds = [0, 5, 10 :: real]\<rparr>"
  have h1: "creates_palette named_rgba ?ps Both = Inr ?r" by code_simp
  have h2: "accumulate named_rgba ?ps ([], []) =
     Inr ([5, 10, 0, 5], [(1, 1, 1, 1), (0, 0, 0, 1), (1, 0, 0, 1), (1, 1, 1, 1)])"
    by code_simp
  have b: "bounds ?r = [0, 5, 10]" by simp
  from boundaries_sorted_unique [OF h1 h2]
  have "sorted [0, 5, 10 :: real] \<and> distinct [0, 5, 10 :: real] \<and>
        [0, 5, 10] = sorted_list_of_set (set [5, 10, 0, 5 :: real])"
    unfolding b by blast
  with h1 h2 show ?thesis by blast
qed

text \<open>
  Claim C5. One segment with one colour and the single value \<open>5\<close>: the normalisation
  divides by \<open>1\<close> and yields the position \<open>1\<close>, and the call then ends in the
  \<^verbatim>\<open>ValueError\<close> of \<^verbatim>\<open>BoundaryNorm\<close>, which is given one boundary.
\<close>

theorem single_value_palette_raises:
  "normalize [5] = Inr [1] \<and>
   creates_palette named_rgba [Pal (ColorList [''red'']) [5] ([]::unit list)] Both = Inl ValueError"
proof -
  have "normalize [5] = Inr [1]" by code_simp
  moreover have "creates_palette named_rgba [Pal (ColorList [''red'']) [5] ([]::unit list)] Both =
      Inl ValueError"
    by code_simp
  ultimately show ?thesis by simp
qed

end
